theory Spec2Isabelle
  imports Main
begin

section \<open>JavaScript values\<close>

text \<open>
  The module \<^verbatim>\<open>src/sanitize-tools.ts\<close> works on untyped JavaScript data
  (\<^verbatim>\<open>unknown\<close>, \<^verbatim>\<open>Record<string, unknown>\<close>) and tells the shapes apart at run
  time with \<^verbatim>\<open>typeof\<close>, \<^verbatim>\<open>Array.isArray\<close> and \<^verbatim>\<open>in\<close>. The values are modelled
  by one datatype: the primitive values \<^verbatim>\<open>undefined\<close>, \<^verbatim>\<open>null\<close>, booleans,
  numbers, bigints and strings, arrays, and plain objects.

  \<^item> A number is an integer in the range that JavaScript prints in plain decimal
    notation; fractions, \<^verbatim>\<open>NaN\<close> and the infinities are not modelled.
  \<^item> A string is a list of characters.
  \<^item> A plain object is the list of its own enumerable string-keyed properties in
    the order in which \<^verbatim>\<open>Object.entries\<close> and \<^verbatim>\<open>JSON.stringify\<close> enumerate them.
    Assigning \<^verbatim>\<open>out[key] = v\<close> for the keys of such an enumeration, in that order,
    to a fresh object \<^verbatim>\<open>{}\<close> adds the properties in the same order, with one
    exception: for the key \<^verbatim>\<open>__proto__\<close> the assignment reaches the accessor that
    the object inherits from \<^verbatim>\<open>Object.prototype\<close>, which sets or leaves the
    prototype and creates no property. An object can have an own property of
    that name (\<^verbatim>\<open>JSON.parse\<close> creates one), so the key is an input of the module.
    The model records the own properties of an object and not its prototype.
  \<^item> Functions, symbols, class instances and cyclic structures are not modelled.
\<close>

datatype jsval =
    JUndefined
  | JNull
  | JBool bool
  | JNum int
  | JBigInt int
  | JStr string
  | JArr "jsval list"
  | JObj "(string \<times> jsval) list"

text \<open>\<^verbatim>\<open>Array.isArray(v)\<close>.\<close>

fun isArray :: "jsval \<Rightarrow> bool" where
  "isArray (JArr _) = True"
| "isArray _ = False"

section \<open>The schema sanitizer\<close>

text \<open>The set \<^verbatim>\<open>STRIP_KEYS\<close> (lines 9-20), as the list of its elements.\<close>

definition STRIP_KEYS :: "string list" where
  "STRIP_KEYS =
     [''minLength'', ''maxLength'', ''minItems'', ''maxItems'',
      ''exclusiveMinimum'', ''exclusiveMaximum'', ''pattern'', ''format'',
      ''default'', ''$schema'']"

text \<open>
  \<^verbatim>\<open>sanitizeSchema\<close> (lines 22-52). The argument is the list
  \<^verbatim>\<open>Object.entries(schema)\<close> and the result is the list of the properties of
  \<^verbatim>\<open>out\<close>. The loop visits the entries in order; a key of \<^verbatim>\<open>STRIP_KEYS\<close> is
  skipped (\<^verbatim>\<open>continue\<close>), a value that is a non-null, non-array object is
  sanitized recursively, an array is mapped element by element (an element that
  is a non-null, non-array object is sanitized, every other element is kept as
  it is), and every other value is copied. Each of the three branches ends in
  the assignment \<^verbatim>\<open>out[key] = ...\<close>, which adds the property to \<^verbatim>\<open>out\<close> unless
  the key is \<^verbatim>\<open>__proto__\<close>; then \<^verbatim>\<open>out\<close> gets no property.
\<close>

fun sanitizeSchema :: "(string \<times> jsval) list \<Rightarrow> (string \<times> jsval) list" where
  "sanitizeSchema [] = []"
| "sanitizeSchema ((key, v) # rest) =
     (if key \<in> set STRIP_KEYS then sanitizeSchema rest
      else if key = ''__proto__'' then sanitizeSchema rest
      else (key,
             (case v of
                JObj kvs \<Rightarrow> JObj (sanitizeSchema kvs)
              | JArr items \<Rightarrow>
                  JArr (map (\<lambda>item. case item of
                                      JObj kvs' \<Rightarrow> JObj (sanitizeSchema kvs')
                                    | _ \<Rightarrow> item) items)
              | _ \<Rightarrow> v)) # sanitizeSchema rest)"

text \<open>
  The two value transformations inside the loop body, named for use in
  statements: the callback of \<^verbatim>\<open>value.map\<close> (lines 39-45) and the whole
  three-way branch on the value (lines 30-48).
\<close>

definition sanitizeItem :: "jsval \<Rightarrow> jsval" where
  "sanitizeItem item =
     (case item of JObj kvs \<Rightarrow> JObj (sanitizeSchema kvs) | _ \<Rightarrow> item)"

definition sanitizeValue :: "jsval \<Rightarrow> jsval" where
  "sanitizeValue v =
     (case v of
        JObj kvs \<Rightarrow> JObj (sanitizeSchema kvs)
      | JArr items \<Rightarrow> JArr (map sanitizeItem items)
      | _ \<Rightarrow> v)"


section \<open>The content flattener\<close>

text \<open>
  \<^verbatim>\<open>typeof v\<close>, and the conversion of a value to a boolean that \<^verbatim>\<open>!v\<close> performs.
\<close>

fun js_typeof :: "jsval \<Rightarrow> string" where
  "js_typeof JUndefined = ''undefined''"
| "js_typeof JNull = ''object''"
| "js_typeof (JBool _) = ''boolean''"
| "js_typeof (JNum _) = ''number''"
| "js_typeof (JBigInt _) = ''bigint''"
| "js_typeof (JStr _) = ''string''"
| "js_typeof (JArr _) = ''object''"
| "js_typeof (JObj _) = ''object''"

fun js_truthy :: "jsval \<Rightarrow> bool" where
  "js_truthy JUndefined = False"
| "js_truthy JNull = False"
| "js_truthy (JBool b) = b"
| "js_truthy (JNum n) = (n \<noteq> 0)"
| "js_truthy (JBigInt n) = (n \<noteq> 0)"
| "js_truthy (JStr s) = (s \<noteq> [])"
| "js_truthy (JArr _) = True"
| "js_truthy (JObj _) = True"

text \<open>
  \<^verbatim>\<open>key in v\<close> and \<^verbatim>\<open>v.key\<close> for a value \<open>v\<close> of type object and one of the
  keys the module asks for (\<^verbatim>\<open>"type"\<close>, \<^verbatim>\<open>"text"\<close>, \<^verbatim>\<open>"content"\<close>). A plain
  object has the key when it is among its properties; an array has none of these
  keys (its keys are its indices and \<^verbatim>\<open>length\<close>). Reading an absent property
  gives \<^verbatim>\<open>undefined\<close>.
\<close>

fun js_in :: "string \<Rightarrow> jsval \<Rightarrow> bool" where
  "js_in key (JObj kvs) = (map_of kvs key \<noteq> None)"
| "js_in key _ = False"

fun js_get :: "jsval \<Rightarrow> string \<Rightarrow> jsval" where
  "js_get (JObj kvs) key = (case map_of kvs key of None \<Rightarrow> JUndefined | Some v \<Rightarrow> v)"
| "js_get _ key = JUndefined"

text \<open>The elements of an array (the cast \<^verbatim>\<open>as unknown[]\<close> of a value that is one).\<close>

fun elements :: "jsval \<Rightarrow> jsval list" where
  "elements (JArr xs) = xs"
| "elements _ = []"

text \<open>
  \<^verbatim>\<open>extractTexts\<close> (lines 61-81): the loop pushes \<^verbatim>\<open>part.text\<close> for every part
  that passes the six checks of the condition, in order.
\<close>

fun extractTexts :: "jsval list \<Rightarrow> string list" where
  "extractTexts [] = []"
| "extractTexts (part # parts) =
     (if part \<noteq> JNull \<and> js_typeof part = ''object'' \<and>
         js_in ''type'' part \<and> js_get part ''type'' = JStr ''text'' \<and>
         js_in ''text'' part \<and> js_typeof (js_get part ''text'') = ''string''
      then (case js_get part ''text'' of
              JStr s \<Rightarrow> s # extractTexts parts
            | _ \<Rightarrow> extractTexts parts)
      else extractTexts parts)"

text \<open>\<^verbatim>\<open>texts.join(sep)\<close> on an array of strings.\<close>

fun join :: "string \<Rightarrow> string list \<Rightarrow> string" where
  "join sep [] = []"
| "join sep [x] = x"
| "join sep (x # y # ys) = x @ sep @ join sep (y # ys)"

subsection \<open>\<^verbatim>\<open>JSON.stringify\<close>\<close>

text \<open>
  The built-in \<^verbatim>\<open>JSON.stringify(value)\<close> with one argument, as ECMAScript
  defines it on the values of the model. Serializing a property gives a text, or
  nothing for \<^verbatim>\<open>undefined\<close>, or throws a \<^verbatim>\<open>TypeError\<close> on a bigint. An object
  leaves out the properties that serialize to nothing, an array writes
  \<^verbatim>\<open>null\<close> for them, and at the top level the result is then \<^verbatim>\<open>undefined\<close>.
  A number is written in plain decimal, which is what JavaScript does for the
  integers of magnitude below \<open>10\<^sup>2\<^sup>1\<close>; for larger ones it uses the exponent
  notation, which is not modelled, and no statement below depends on the text
  of a number.
\<close>

datatype error = TypeError | Thrown jsval

definition digit_char :: "nat \<Rightarrow> char" where
  "digit_char d = ''0123456789abcdef'' ! d"

function show_nat :: "nat \<Rightarrow> string" where
  "show_nat n =
     (if n < 10 then [digit_char n]
      else show_nat (n div 10) @ [digit_char (n mod 10)])"
  by pat_completeness auto
termination
  by (relation "measure (\<lambda>n. n)") auto

declare show_nat.simps [simp del]

definition show_int :: "int \<Rightarrow> string" where
  "show_int i =
     (if i < 0 then CHR ''-'' # show_nat (nat (- i)) else show_nat (nat i))"

text \<open>
  \<^verbatim>\<open>QuoteJSONString\<close>: the two-character escapes, \<^verbatim>\<open>\u00XX\<close> with lower-case
  hexadecimal digits for the other control characters, every other character
  as it is, between double quotes.
\<close>

definition quote_char :: "char \<Rightarrow> string" where
  "quote_char c =
     (if c = CHR 0x08 then [CHR 0x5C, CHR ''b'']
      else if c = CHR 0x09 then [CHR 0x5C, CHR ''t'']
      else if c = CHR 0x0A then [CHR 0x5C, CHR ''n'']
      else if c = CHR 0x0C then [CHR 0x5C, CHR ''f'']
      else if c = CHR 0x0D then [CHR 0x5C, CHR ''r'']
      else if c = CHR 0x22 then [CHR 0x5C, CHR 0x22]
      else if c = CHR 0x5C then [CHR 0x5C, CHR 0x5C]
      else if of_char c < (32 :: nat)
        then [CHR 0x5C, CHR ''u'', CHR ''0'', CHR ''0'',
              digit_char (of_char c div 16), digit_char (of_char c mod 16)]
      else [c])"

definition quote :: "string \<Rightarrow> string" where
  "quote s = CHR 0x22 # concat (map quote_char s) @ [CHR 0x22]"

fun serialize :: "jsval \<Rightarrow> error + string option"
  and serialize_items :: "jsval list \<Rightarrow> error + string list"
  and serialize_props :: "(string \<times> jsval) list \<Rightarrow> error + string list" where
  "serialize JUndefined = Inr None"
| "serialize JNull = Inr (Some ''null'')"
| "serialize (JBool b) = Inr (Some (if b then ''true'' else ''false''))"
| "serialize (JNum n) = Inr (Some (show_int n))"
| "serialize (JBigInt n) = Inl TypeError"
| "serialize (JStr s) = Inr (Some (quote s))"
| "serialize (JArr xs) =
     (case serialize_items xs of
        Inl err \<Rightarrow> Inl err
      | Inr parts \<Rightarrow> Inr (Some (''['' @ join '','' parts @ '']'')))"
| "serialize (JObj kvs) =
     (case serialize_props kvs of
        Inl err \<Rightarrow> Inl err
      | Inr parts \<Rightarrow> Inr (Some (''{'' @ join '','' parts @ ''}'')))"
| "serialize_items [] = Inr []"
| "serialize_items (x # xs) =
     (case serialize x of
        Inl err \<Rightarrow> Inl err
      | Inr r \<Rightarrow>
          (case serialize_items xs of
             Inl err \<Rightarrow> Inl err
           | Inr rs \<Rightarrow> Inr ((case r of None \<Rightarrow> ''null'' | Some s \<Rightarrow> s) # rs)))"
| "serialize_props [] = Inr []"
| "serialize_props ((k, v) # kvs) =
     (case serialize v of
        Inl err \<Rightarrow> Inl err
      | Inr r \<Rightarrow>
          (case serialize_props kvs of
             Inl err \<Rightarrow> Inl err
           | Inr rs \<Rightarrow>
               Inr (case r of None \<Rightarrow> rs | Some s \<Rightarrow> (quote k @ '':'' @ s) # rs)))"

definition JSON_stringify :: "jsval \<Rightarrow> error + jsval" where
  "JSON_stringify v =
     (case serialize v of
        Inl err \<Rightarrow> Inl err
      | Inr None \<Rightarrow> Inr JUndefined
      | Inr (Some s) \<Rightarrow> Inr (JStr s))"

subsection \<open>\<^verbatim>\<open>flattenContent\<close>\<close>

text \<open>
  \<^verbatim>\<open>flattenContent\<close> (lines 83-108). The result is the value the function
  returns, or the error it throws. The four exits are tried in the order of the
  source: a string; an object with an array under \<^verbatim>\<open>content\<close> from which at
  least one text was extracted; an array from which at least one text was
  extracted; \<^verbatim>\<open>JSON.stringify(result)\<close>.
\<close>

definition flattenContent :: "jsval \<Rightarrow> error + jsval" where
  "flattenContent result =
     (if js_typeof result = ''string'' then Inr result
      else if result \<noteq> JNull \<and> js_typeof result = ''object'' \<and>
              js_in ''content'' result \<and> isArray (js_get result ''content'') \<and>
              extractTexts (elements (js_get result ''content'')) \<noteq> []
        then Inr (JStr (join [CHR 0x0A]
                    (extractTexts (elements (js_get result ''content'')))))
      else if isArray result \<and> extractTexts (elements result) \<noteq> []
        then Inr (JStr (join [CHR 0x0A] (extractTexts (elements result))))
      else JSON_stringify result)"

section \<open>The tool adapter\<close>

text \<open>
  A call of an asynchronous function ends in a promise that is fulfilled with a
  value, rejected with an error, or never settled.
\<close>

datatype outcome = Fulfilled jsval | Rejected error | Pending

text \<open>
  A tool (\<^verbatim>\<open>ToolSet[string]\<close>): the three fields the module reads or writes;
  every other field of the object (\<^verbatim>\<open>description\<close>, \<^verbatim>\<open>...\<close>) is in the
  extension of the record, which the spread \<^verbatim>\<open>{...tool, ...}\<close> copies. The type
  \<open>'d\<close> is the type of schema descriptors, \<open>'a\<close> of the argument lists of
  \<^verbatim>\<open>execute\<close>, \<open>'h\<close> of the \<^verbatim>\<open>toModelOutput\<close> hooks. An absent field, and a field
  that holds \<^verbatim>\<open>undefined\<close>, is \<open>None\<close>.
\<close>

record ('d, 'a, 'h) tool =
  inputSchema :: 'd
  execute :: "('a \<Rightarrow> outcome) option"
  toModelOutput :: "'h option"

text \<open>
  \<^verbatim>\<open>wrapExecute\<close> (lines 114-132). The new \<^verbatim>\<open>execute\<close> awaits the original on
  the same arguments; a rejection of the original, and an error thrown by
  \<^verbatim>\<open>flattenContent\<close>, reject the promise of the wrapper.
\<close>

definition wrapExecute ::
  "('d, 'a, 'h, 'z) tool_scheme \<Rightarrow> ('d, 'a, 'h, 'z) tool_scheme" where
  "wrapExecute tool =
     (case execute tool of
        None \<Rightarrow> tool
      | Some original \<Rightarrow>
          tool\<lparr>toModelOutput := None,
               execute := Some (\<lambda>executeArgs.
                 case original executeArgs of
                   Fulfilled result \<Rightarrow>
                     (case flattenContent result of
                        Inl err \<Rightarrow> Rejected err
                      | Inr text \<Rightarrow> Fulfilled text)
                 | Rejected err \<Rightarrow> Rejected err
                 | Pending \<Rightarrow> Pending)\<rparr>)"

text \<open>
  \<^verbatim>\<open>Object.entries(raw)\<close> for a value that passed the test of line 146: the
  properties of an object; for an array, its elements under their indices
  written in decimal.
\<close>

fun Object_entries :: "jsval \<Rightarrow> (string \<times> jsval) list" where
  "Object_entries (JObj kvs) = kvs"
| "Object_entries (JArr xs) = zip (map show_nat [0 ..< length xs]) xs"
| "Object_entries _ = []"

text \<open>
  The body of the loop of \<^verbatim>\<open>sanitizeTools\<close> (lines 144-158) for one tool. The
  two functions imported from the package \<^verbatim>\<open>ai\<close> are parameters:
  \<open>asSchema d\<close> is the value of \<^verbatim>\<open>asSchema(d).jsonSchema\<close>, or the error that the
  call throws, and \<open>jsonSchema\<close> builds a descriptor from a schema.
\<close>

definition sanitizeTool ::
  "('d \<Rightarrow> error + jsval) \<Rightarrow> (jsval \<Rightarrow> 'd) \<Rightarrow>
     ('d, 'a, 'h, 'z) tool_scheme \<Rightarrow> error + ('d, 'a, 'h, 'z) tool_scheme" where
  "sanitizeTool asSchema jsonSchema tool =
     (case asSchema (inputSchema tool) of
        Inl err \<Rightarrow> Inl err
      | Inr raw \<Rightarrow>
          if \<not> js_truthy raw \<or> js_typeof raw \<noteq> ''object''
          then Inr (wrapExecute tool)
          else Inr (wrapExecute
                 (tool\<lparr>inputSchema :=
                    jsonSchema (JObj (sanitizeSchema (Object_entries raw)))\<rparr>)))"

text \<open>
  The loop of \<^verbatim>\<open>sanitizeTools\<close> (lines 143-159) on the list
  \<^verbatim>\<open>Object.entries(tools)\<close>: the assignments \<^verbatim>\<open>out[name] = ...\<close> that it makes, in
  order, each as the name and the adapted tool that is assigned, or the first
  error thrown.
\<close>

fun sanitizeTools_loop ::
  "('d \<Rightarrow> error + jsval) \<Rightarrow> (jsval \<Rightarrow> 'd) \<Rightarrow>
     (string \<times> ('d, 'a, 'h, 'z) tool_scheme) list \<Rightarrow>
     error + (string \<times> ('d, 'a, 'h, 'z) tool_scheme) list" where
  "sanitizeTools_loop asSchema jsonSchema [] = Inr []"
| "sanitizeTools_loop asSchema jsonSchema ((name, tool) # rest) =
     (case sanitizeTool asSchema jsonSchema tool of
        Inl err \<Rightarrow> Inl err
      | Inr tool' \<Rightarrow>
          (case sanitizeTools_loop asSchema jsonSchema rest of
             Inl err \<Rightarrow> Inl err
           | Inr out \<Rightarrow> Inr ((name, tool') # out)))"

text \<open>
  The properties of the object that starts as \<^verbatim>\<open>{}\<close> and receives the
  assignments \<^verbatim>\<open>out[name] = v\<close> of a list with distinct names, in order: each
  assignment adds a property, except the one to \<^verbatim>\<open>__proto__\<close>.
\<close>

definition assigned :: "(string \<times> 'v) list \<Rightarrow> (string \<times> 'v) list" where
  "assigned entries = filter (\<lambda>(name, v). name \<noteq> ''__proto__'') entries"

text \<open>
  \<^verbatim>\<open>sanitizeTools\<close> (lines 140-162): the list of the properties of the object
  \<^verbatim>\<open>out\<close> that it returns, or the first error thrown.
\<close>

definition sanitizeTools ::
  "('d \<Rightarrow> error + jsval) \<Rightarrow> (jsval \<Rightarrow> 'd) \<Rightarrow>
     (string \<times> ('d, 'a, 'h, 'z) tool_scheme) list \<Rightarrow>
     error + (string \<times> ('d, 'a, 'h, 'z) tool_scheme) list" where
  "sanitizeTools asSchema jsonSchema tools =
     (case sanitizeTools_loop asSchema jsonSchema tools of
        Inl err \<Rightarrow> Inl err
      | Inr entries \<Rightarrow> Inr (assigned entries))"

section \<open>Vocabulary of the statements\<close>

text \<open>
  All keys that occur in a value, at any nesting depth: the keys of an object,
  the keys inside its values, and the keys inside the elements of an array.
\<close>

fun keys_deep :: "jsval \<Rightarrow> string list" where
  "keys_deep (JObj kvs) = concat (map (\<lambda>(k, v). k # keys_deep v) kvs)"
| "keys_deep (JArr xs) = concat (map keys_deep xs)"
| "keys_deep _ = []"

text \<open>
  A value in which no array is directly an element of an array, at any depth:
  every sequence holds only trees and primitive values.
\<close>

fun flat_seqs :: "jsval \<Rightarrow> bool" where
  "flat_seqs (JObj kvs) = list_all (\<lambda>(k, v). flat_seqs v) kvs"
| "flat_seqs (JArr xs) = list_all (\<lambda>x. \<not> isArray x \<and> flat_seqs x) xs"
| "flat_seqs _ = True"

text \<open>A tree: a mapping from string keys to values, that is, a plain object.\<close>

fun isTree :: "jsval \<Rightarrow> bool" where
  "isTree (JObj _) = True"
| "isTree _ = False"

text \<open>
  A Content Block, in the words of the specification: a tree that has a field
  \<^verbatim>\<open>type\<close> with value \<^verbatim>\<open>"text"\<close> and a field \<^verbatim>\<open>text\<close> that holds a string; and
  the string it holds.
\<close>

fun isContentBlock :: "jsval \<Rightarrow> bool" where
  "isContentBlock (JObj kvs) =
     (map_of kvs ''type'' = Some (JStr ''text'') \<and>
      (case map_of kvs ''text'' of Some (JStr s) \<Rightarrow> True | _ \<Rightarrow> False))"
| "isContentBlock _ = False"

fun blockText :: "jsval \<Rightarrow> string" where
  "blockText (JObj kvs) = (case map_of kvs ''text'' of Some (JStr s) \<Rightarrow> s | _ \<Rightarrow> [])"
| "blockText _ = []"

text \<open>A value that holds no bigint, at any depth.\<close>

fun bigint_free :: "jsval \<Rightarrow> bool" where
  "bigint_free (JBigInt _) = False"
| "bigint_free (JArr xs) = list_all bigint_free xs"
| "bigint_free (JObj kvs) = list_all (\<lambda>(k, v). bigint_free v) kvs"
| "bigint_free _ = True"

section \<open>Properties of the sanitizer\<close>

lemma sanitizeSchema_Cons:
  "sanitizeSchema ((key, v) # rest) =
     (if key \<in> set STRIP_KEYS \<or> key = ''__proto__'' then sanitizeSchema rest
      else (key, sanitizeValue v) # sanitizeSchema rest)"
  by (cases v) (simp_all add: sanitizeValue_def sanitizeItem_def [abs_def])

declare sanitizeSchema.simps(2) [simp del]

lemma keys_deep_JObj_Cons:
  "set (keys_deep (JObj ((k, v) # rest))) =
     insert k (set (keys_deep v) \<union> set (keys_deep (JObj rest)))"
  by auto

lemma keys_deep_item:
  "x \<in> set xs \<Longrightarrow> set (keys_deep x) \<subseteq> set (keys_deep (JArr xs))"
  by auto

lemma sanitizeSchema_keys:
  "''__proto__'' \<notin> set (map fst kvs) \<Longrightarrow>
     map fst (sanitizeSchema kvs) = filter (\<lambda>k. k \<notin> set STRIP_KEYS) (map fst kvs)"
  by (induction kvs) (auto simp: sanitizeSchema_Cons)

lemma sanitizeSchema_key_kept:
  "(k, v') \<in> set (sanitizeSchema kvs) \<Longrightarrow> k \<in> fst ` set kvs \<and> k \<notin> set STRIP_KEYS"
proof (induction kvs)
  case Nil
  then show ?case by simp
next
  case (Cons p kvs)
  obtain key v where p: "p = (key, v)" by (cases p)
  show ?case
  proof (cases "key \<in> set STRIP_KEYS \<or> key = ''__proto__''")
    case True
    with Cons p show ?thesis
      by (simp add: sanitizeSchema_Cons)
  next
    case False
    with Cons.prems p have "(k, v') = (key, sanitizeValue v) \<or> (k, v') \<in> set (sanitizeSchema kvs)"
      by (simp add: sanitizeSchema_Cons)
    then show ?thesis
      using Cons.IH False p by auto
  qed
qed

lemma sanitizeSchema_keys_subset:
  "set (map fst (sanitizeSchema kvs)) \<subseteq> set (map fst kvs) - set STRIP_KEYS"
  using sanitizeSchema_key_kept [of _ _ kvs] by auto

lemma sanitizeSchema_lookup:
  "k \<notin> set STRIP_KEYS \<Longrightarrow> k \<noteq> ''__proto__'' \<Longrightarrow>
     map_of (sanitizeSchema kvs) k = map_option sanitizeValue (map_of kvs k)"
  by (induction kvs) (auto simp: sanitizeSchema_Cons)

lemma tree_induct [case_names Nil Cons]:
  assumes "P []"
    and "\<And>key v rest.
           P rest \<Longrightarrow>
           (\<And>kvs. v = JObj kvs \<Longrightarrow> P kvs) \<Longrightarrow>
           (\<And>items x kvs. v = JArr items \<Longrightarrow> x \<in> set items \<Longrightarrow> x = JObj kvs \<Longrightarrow> P kvs) \<Longrightarrow>
           P ((key, v) # rest)"
  shows "P tree"
proof (induction tree rule: measure_induct_rule [where f = "\<lambda>kvs. size (JObj kvs)"])
  case (less tree)
  show ?case
  proof (cases tree)
    case Nil
    with assms(1) show ?thesis by simp
  next
    case (Cons p rest)
    obtain key v where p: "p = (key, v)" by (cases p)
    have "P rest"
      using less Cons by simp
    moreover have "P kvs" if "v = JObj kvs" for kvs
      using less Cons p that by simp
    moreover have "P kvs" if "v = JArr items" "x \<in> set items" "x = JObj kvs" for items x kvs
    proof -
      from that(2) have "size x \<le> size_list size items"
        by (simp add: size_list_estimation')
      with that(1,3) show ?thesis
        using less Cons p by simp
    qed
    ultimately show ?thesis
      unfolding Cons p by (rule assms(2))
  qed
qed

lemma sanitizeSchema_id:
  assumes "set (keys_deep (JObj tree)) \<inter> set STRIP_KEYS = {}"
    and "''__proto__'' \<notin> set (keys_deep (JObj tree))"
  shows "sanitizeSchema tree = tree"
  using assms
proof (induction tree rule: tree_induct)
  case Nil
  then show ?case by simp
next
  case (Cons key v rest)
  from Cons.prems have key: "key \<notin> set STRIP_KEYS" "key \<noteq> ''__proto__''"
    and v: "set (keys_deep v) \<inter> set STRIP_KEYS = {}" "''__proto__'' \<notin> set (keys_deep v)"
    and rest: "set (keys_deep (JObj rest)) \<inter> set STRIP_KEYS = {}"
      "''__proto__'' \<notin> set (keys_deep (JObj rest))"
    by auto
  have r: "sanitizeSchema rest = rest"
    using Cons.IH(1) rest by simp
  have "sanitizeValue v = v"
  proof (cases v)
    case (JObj kvs)
    then show ?thesis
      using Cons.IH(2) [OF JObj] v by (simp add: sanitizeValue_def)
  next
    case (JArr items)
    have "sanitizeItem x = x" if x: "x \<in> set items" for x
    proof (cases x)
      case (JObj kvs')
      have "set (keys_deep x) \<subseteq> set (keys_deep v)"
        using keys_deep_item [OF x] JArr by simp
      with v JObj have "set (keys_deep (JObj kvs')) \<inter> set STRIP_KEYS = {}"
        and "''__proto__'' \<notin> set (keys_deep (JObj kvs'))"
        by blast+
      from Cons.IH(3) [OF JArr x JObj this] show ?thesis
        using JObj by (simp add: sanitizeItem_def)
    qed (simp_all add: sanitizeItem_def)
    then have "map sanitizeItem items = items"
      by (simp add: map_idI)
    then show ?thesis
      using JArr by (simp add: sanitizeValue_def)
  qed (simp_all add: sanitizeValue_def)
  then show ?case
    using key r by (simp add: sanitizeSchema_Cons)
qed

lemma sanitizeSchema_clean:
  assumes "flat_seqs (JObj tree)"
  shows "set (keys_deep (JObj (sanitizeSchema tree))) \<inter> set STRIP_KEYS = {}"
  using assms
proof (induction tree rule: tree_induct)
  case Nil
  then show ?case by simp
next
  case (Cons key v rest)
  from Cons.prems have fv: "flat_seqs v" and frest: "flat_seqs (JObj rest)"
    by auto
  have r: "set (keys_deep (JObj (sanitizeSchema rest))) \<inter> set STRIP_KEYS = {}"
    using Cons.IH(1) frest by blast
  show ?case
  proof (cases "key \<in> set STRIP_KEYS \<or> key = ''__proto__''")
    case True
    then show ?thesis
      using r by (simp add: sanitizeSchema_Cons)
  next
    case False
    then have key: "key \<notin> set STRIP_KEYS" by simp
    have "set (keys_deep (sanitizeValue v)) \<inter> set STRIP_KEYS = {}"
    proof (cases v)
      case (JObj kvs)
      then show ?thesis
        using Cons.IH(2) [OF JObj] fv by (simp add: sanitizeValue_def)
    next
      case (JArr items)
      have "set (keys_deep (sanitizeItem x)) \<inter> set STRIP_KEYS = {}"
        if x: "x \<in> set items" for x
      proof -
        from x fv JArr have nx: "\<not> isArray x" and fx: "flat_seqs x"
          by (auto simp: list_all_iff)
        show ?thesis
        proof (cases x)
          case (JObj kvs')
          from Cons.IH(3) [OF JArr x JObj] fx JObj show ?thesis
            by (simp add: sanitizeItem_def)
        next
          case (JArr ys)
          with nx show ?thesis by simp
        qed (simp_all add: sanitizeItem_def)
      qed
      then show ?thesis
        using JArr by (auto simp: sanitizeValue_def)
    qed (simp_all add: sanitizeValue_def)
    then show ?thesis
      using False key r
      by (simp only: sanitizeSchema_Cons if_False keys_deep_JObj_Cons) blast
  qed
qed

text \<open>
  Claim C8 fails on the code: the tree
  \<^verbatim>\<open>{"__proto__": {"type": "string"}, "a": 1}\<close>, as \<^verbatim>\<open>JSON.parse\<close> builds it,
  has no key of the denylist, and \<^verbatim>\<open>sanitizeSchema\<close> returns \<^verbatim>\<open>{"a": 1}\<close>: the
  assignment to \<^verbatim>\<open>out["__proto__"]\<close> creates no property. On the trees without
  a key of that name the claim holds (\<open>sanitizeSchema_id\<close>).
\<close>

theorem sanitizeSchema_drops_proto_key:
  "set (keys_deep (JObj
      [(''__proto__'', JObj [(''type'', JStr ''string'')]), (''a'', JNum 1)])) \<inter>
     set STRIP_KEYS = {} \<and>
   sanitizeSchema
      [(''__proto__'', JObj [(''type'', JStr ''string'')]), (''a'', JNum 1)] =
      [(''a'', JNum 1)]"
  by (simp add: STRIP_KEYS_def sanitizeSchema_Cons sanitizeValue_def)

text \<open>
  Claim C1, as amended. For every tree in which every sequence holds only trees
  and primitive values (no sequence is directly an element of a sequence), the
  output of \<^verbatim>\<open>sanitizeSchema\<close> contains no key of the denylist at any depth.
  For every tree, every key other than \<^verbatim>\<open>__proto__\<close> that is not in the denylist
  is kept, with the value of the input, sanitized where it is a tree or a
  sequence (the trees among the elements of a sequence are sanitized; a
  sequence that is an element of a sequence is copied as it is); no key is
  added; and where the tree has no key \<^verbatim>\<open>__proto__\<close>, the keys of the output are
  the keys of the input that are not in the denylist, in the same order.
\<close>

theorem sanitizeSchema_strips_denylist:
  "(flat_seqs (JObj tree) \<longrightarrow>
      set (keys_deep (JObj (sanitizeSchema tree))) \<inter> set STRIP_KEYS = {}) \<and>
   (\<forall>k v. k \<notin> set STRIP_KEYS \<and> k \<noteq> ''__proto__'' \<and> map_of tree k = Some v \<longrightarrow>
      map_of (sanitizeSchema tree) k = Some (sanitizeValue v)) \<and>
   set (map fst (sanitizeSchema tree)) \<subseteq> set (map fst tree) - set STRIP_KEYS \<and>
   (''__proto__'' \<notin> set (map fst tree) \<longrightarrow>
      map fst (sanitizeSchema tree) =
        filter (\<lambda>k. k \<notin> set STRIP_KEYS) (map fst tree)) \<and>
   (\<forall>xs. sanitizeItem (JArr xs) = JArr xs)"
proof (intro conjI impI allI)
  assume "flat_seqs (JObj tree)"
  then show "set (keys_deep (JObj (sanitizeSchema tree))) \<inter> set STRIP_KEYS = {}"
    by (rule sanitizeSchema_clean)
next
  fix k v
  assume "k \<notin> set STRIP_KEYS \<and> k \<noteq> ''__proto__'' \<and> map_of tree k = Some v"
  then show "map_of (sanitizeSchema tree) k = Some (sanitizeValue v)"
    by (simp add: sanitizeSchema_lookup)
next
  show "set (map fst (sanitizeSchema tree)) \<subseteq> set (map fst tree) - set STRIP_KEYS"
    by (rule sanitizeSchema_keys_subset)
next
  assume "''__proto__'' \<notin> set (map fst tree)"
  then show "map fst (sanitizeSchema tree) =
      filter (\<lambda>k. k \<notin> set STRIP_KEYS) (map fst tree)"
    by (rule sanitizeSchema_keys)
next
  fix xs
  show "sanitizeItem (JArr xs) = JArr xs"
    by (simp add: sanitizeItem_def)
qed

theorem sanitizeSchema_strips_denylist_witness:
  "flat_seqs (JObj
     [(''$schema'', JStr ''http://json-schema.org/draft-07/schema#''),
      (''type'', JStr ''object''),
      (''properties'', JObj
         [(''name'', JObj [(''type'', JStr ''string''), (''minLength'', JNum 3)])]),
      (''anyOf'', JArr [JObj [(''format'', JStr ''email'')], JNum 1])]) \<and>
   set (keys_deep (JObj (sanitizeSchema
     [(''$schema'', JStr ''http://json-schema.org/draft-07/schema#''),
      (''type'', JStr ''object''),
      (''properties'', JObj
         [(''name'', JObj [(''type'', JStr ''string''), (''minLength'', JNum 3)])]),
      (''anyOf'', JArr [JObj [(''format'', JStr ''email'')], JNum 1])]))) \<inter>
     set STRIP_KEYS = {} \<and>
   map_of (sanitizeSchema
     [(''$schema'', JStr ''http://json-schema.org/draft-07/schema#''),
      (''type'', JStr ''object''),
      (''properties'', JObj
         [(''name'', JObj [(''type'', JStr ''string''), (''minLength'', JNum 3)])]),
      (''anyOf'', JArr [JObj [(''format'', JStr ''email'')], JNum 1])]) ''properties'' =
     Some (JObj [(''name'', JObj [(''type'', JStr ''string'')])]) \<and>
   map fst (sanitizeSchema
     [(''$schema'', JStr ''http://json-schema.org/draft-07/schema#''),
      (''type'', JStr ''object''),
      (''properties'', JObj
         [(''name'', JObj [(''type'', JStr ''string''), (''minLength'', JNum 3)])]),
      (''anyOf'', JArr [JObj [(''format'', JStr ''email'')], JNum 1])]) =
     [''type'', ''properties'', ''anyOf'']"
proof -
  let ?tree = "[(''$schema'', JStr ''http://json-schema.org/draft-07/schema#''),
      (''type'', JStr ''object''),
      (''properties'', JObj
         [(''name'', JObj [(''type'', JStr ''string''), (''minLength'', JNum 3)])]),
      (''anyOf'', JArr [JObj [(''format'', JStr ''email'')], JNum 1])]"
  note t = sanitizeSchema_strips_denylist [of ?tree]
  have f: "flat_seqs (JObj ?tree)" by simp
  from t [THEN conjunct1] f
  have c1: "set (keys_deep (JObj (sanitizeSchema ?tree))) \<inter> set STRIP_KEYS = {}"
    by (rule mp)
  have k: "''properties'' \<notin> set STRIP_KEYS \<and> ''properties'' \<noteq> ''__proto__'' \<and>
      map_of ?tree ''properties'' =
      Some (JObj [(''name'', JObj [(''type'', JStr ''string''), (''minLength'', JNum 3)])])"
    by (simp add: STRIP_KEYS_def)
  have v: "sanitizeValue
      (JObj [(''name'', JObj [(''type'', JStr ''string''), (''minLength'', JNum 3)])]) =
      JObj [(''name'', JObj [(''type'', JStr ''string'')])]"
    by (simp add: sanitizeValue_def sanitizeSchema_Cons STRIP_KEYS_def)
  from t [THEN conjunct2, THEN conjunct1, rule_format, OF k]
  have "map_of (sanitizeSchema ?tree) ''properties'' =
      Some (sanitizeValue
        (JObj [(''name'', JObj [(''type'', JStr ''string''), (''minLength'', JNum 3)])]))" .
  with v have c2: "map_of (sanitizeSchema ?tree) ''properties'' =
      Some (JObj [(''name'', JObj [(''type'', JStr ''string'')])])"
    by simp
  have p: "''__proto__'' \<notin> set (map fst ?tree)" by simp
  from t [THEN conjunct2, THEN conjunct2, THEN conjunct2, THEN conjunct1, rule_format, OF p]
  have "map fst (sanitizeSchema ?tree) =
      filter (\<lambda>k. k \<notin> set STRIP_KEYS) (map fst ?tree)" .
  then have c3: "map fst (sanitizeSchema ?tree) = [''type'', ''properties'', ''anyOf'']"
    by (simp add: STRIP_KEYS_def)
  from f c1 c2 c3 show ?thesis by (intro conjI)
qed

text \<open>
  Claim C1 as stated fails: a key of the denylist inside a tree that is an
  element of a sequence nested in a sequence is still in the output, here for
  \<^verbatim>\<open>{"enum": [[{"default": 1}]]}\<close>.
\<close>

theorem sanitizeSchema_keeps_denylisted_key_in_nested_sequence:
  "''default'' \<in> set STRIP_KEYS \<and>
   ''default'' \<in> set (keys_deep (JObj (sanitizeSchema
      [(''enum'', JArr [JArr [JObj [(''default'', JNum 1)]]])])))"
  by (simp add: STRIP_KEYS_def sanitizeSchema_Cons sanitizeValue_def sanitizeItem_def)

section \<open>Properties of the flattener\<close>

lemma extractTexts_filter:
  "extractTexts parts = map blockText (filter isContentBlock parts)"
proof (induction parts)
  case Nil
  then show ?case by simp
next
  case (Cons part parts)
  show ?case
  proof (cases part)
    case (JObj kvs)
    then show ?thesis using Cons
      by (auto split: option.splits jsval.splits)
  qed (simp_all add: Cons)
qed

lemma flattenContent_wrapped:
  "map_of kvs ''content'' = Some (JArr parts) \<Longrightarrow> extractTexts parts \<noteq> [] \<Longrightarrow>
     flattenContent (JObj kvs) = Inr (JStr (join [CHR 0x0A] (extractTexts parts)))"
  by (simp add: flattenContent_def)

lemma flattenContent_bare:
  "extractTexts parts \<noteq> [] \<Longrightarrow>
     flattenContent (JArr parts) = Inr (JStr (join [CHR 0x0A] (extractTexts parts)))"
  by (simp add: flattenContent_def)

lemma flattenContent_string: "flattenContent (JStr s) = Inr (JStr s)"
  by (simp add: flattenContent_def)

text \<open>
  What \<^verbatim>\<open>flattenContent\<close> does on the values without a bigint other than
  \<^verbatim>\<open>undefined\<close>: it returns a string; where no text is extracted the string is
  \<^verbatim>\<open>JSON.stringify(result)\<close>, which for an object is never empty.
\<close>

lemma serialize_bigint_free:
  "bigint_free v \<Longrightarrow> \<exists>r. serialize v = Inr r \<and> (v \<noteq> JUndefined \<longrightarrow> r \<noteq> None)"
  "list_all bigint_free xs \<Longrightarrow> \<exists>rs. serialize_items xs = Inr rs"
  "list_all (\<lambda>(k, v). bigint_free v) kvs \<Longrightarrow> \<exists>rs. serialize_props kvs = Inr rs"
proof (induction v and xs and kvs rule: serialize_serialize_items_serialize_props.induct)
qed (auto split: sum.splits)

lemma flattenContent_returns_string:
  assumes "bigint_free v" and "v \<noteq> JUndefined"
  shows "\<exists>s. flattenContent v = Inr (JStr s)"
proof -
  from serialize_bigint_free(1) [OF assms(1)] assms(2)
  obtain s where "serialize v = Inr (Some s)" by auto
  then have "JSON_stringify v = Inr (JStr s)"
    by (simp add: JSON_stringify_def)
  then show ?thesis
    by (cases v) (auto simp: flattenContent_def)
qed

lemma flattenContent_fallback:
  assumes "js_typeof v \<noteq> ''string''"
    and "extractTexts (elements (js_get v ''content'')) = []"
    and "extractTexts (elements v) = []"
  shows "flattenContent v = JSON_stringify v"
  using assms by (simp add: flattenContent_def)

lemma JSON_stringify_object_nonempty:
  "JSON_stringify (JObj kvs) = Inr (JStr s) \<Longrightarrow> s \<noteq> []"
  by (auto simp: JSON_stringify_def split: sum.splits option.splits)

text \<open>
  Claim C2. For a tree with a sequence under \<^verbatim>\<open>content\<close>, and for a bare sequence,
  \<^verbatim>\<open>flattenContent\<close> returns the extracted texts joined by one newline character
  when at least one text was extracted; the extracted texts are the \<^verbatim>\<open>text\<close>
  fields of exactly the elements that are Content Blocks, in their order; in
  particular \<^verbatim>\<open>{content: [{type:"text", text:"a"}, {type:"text", text:"b"}]}\<close>
  gives \<^verbatim>\<open>a\<close>, newline, \<^verbatim>\<open>b\<close>.
\<close>

theorem flattenContent_joins_texts:
  "(\<forall>kvs parts.
      map_of kvs ''content'' = Some (JArr parts) \<and> extractTexts parts \<noteq> [] \<longrightarrow>
      flattenContent (JObj kvs) = Inr (JStr (join [CHR 0x0A] (extractTexts parts)))) \<and>
   (\<forall>parts.
      extractTexts parts \<noteq> [] \<longrightarrow>
      flattenContent (JArr parts) = Inr (JStr (join [CHR 0x0A] (extractTexts parts)))) \<and>
   (\<forall>parts. extractTexts parts = map blockText (filter isContentBlock parts)) \<and>
   flattenContent (JObj [(''content'', JArr
        [JObj [(''type'', JStr ''text''), (''text'', JStr ''a'')],
         JObj [(''type'', JStr ''text''), (''text'', JStr ''b'')]])])
     = Inr (JStr [CHR ''a'', CHR 0x0A, CHR ''b''])"
  using extractTexts_filter
  by (simp add: flattenContent_wrapped flattenContent_bare)

theorem flattenContent_joins_texts_witness:
  "extractTexts
     [JObj [(''type'', JStr ''text''), (''text'', JStr ''x'')],
      JObj [(''type'', JStr ''image''), (''url'', JStr ''u'')],
      JStr ''loose'',
      JObj [(''type'', JStr ''text''), (''text'', JNum 7)],
      JObj [(''text'', JStr ''yz''), (''type'', JStr ''text'')]] = [''x'', ''yz''] \<and>
   flattenContent (JArr
     [JObj [(''type'', JStr ''text''), (''text'', JStr ''x'')],
      JObj [(''type'', JStr ''image''), (''url'', JStr ''u'')],
      JStr ''loose'',
      JObj [(''type'', JStr ''text''), (''text'', JNum 7)],
      JObj [(''text'', JStr ''yz''), (''type'', JStr ''text'')]])
     = Inr (JStr [CHR ''x'', CHR 0x0A, CHR ''y'', CHR ''z''])"
proof -
  let ?parts = "[JObj [(''type'', JStr ''text''), (''text'', JStr ''x'')],
      JObj [(''type'', JStr ''image''), (''url'', JStr ''u'')],
      JStr ''loose'',
      JObj [(''type'', JStr ''text''), (''text'', JNum 7)],
      JObj [(''text'', JStr ''yz''), (''type'', JStr ''text'')]]"
  have e: "extractTexts ?parts = [''x'', ''yz'']" by simp
  then have ne: "extractTexts ?parts \<noteq> []" by simp
  from flattenContent_joins_texts have
    "extractTexts ?parts \<noteq> [] \<longrightarrow>
      flattenContent (JArr ?parts) = Inr (JStr (join [CHR 0x0A] (extractTexts ?parts)))"
    by blast
  with ne have "flattenContent (JArr ?parts) = Inr (JStr (join [CHR 0x0A] (extractTexts ?parts)))"
    by blast
  with e show ?thesis by simp
qed

text \<open>
  Claim C5 fails on the code: \<^verbatim>\<open>flattenContent(undefined)\<close> returns
  \<^verbatim>\<open>undefined\<close>, which is not a string, and a result that holds a bigint makes
  \<^verbatim>\<open>JSON.stringify\<close>, and with it \<^verbatim>\<open>flattenContent\<close>, throw a \<^verbatim>\<open>TypeError\<close>.
\<close>

theorem flattenContent_not_total:
  "flattenContent JUndefined = Inr JUndefined \<and>
   flattenContent (JObj [(''id'', JBigInt 10)]) = Inl TypeError"
  by (simp add: flattenContent_def JSON_stringify_def)

section \<open>Properties of the adapter\<close>

lemma wrapExecute_inputSchema: "inputSchema (wrapExecute t) = inputSchema t"
  by (simp add: wrapExecute_def split: option.splits)

lemma wrapExecute_more: "tool.more (wrapExecute t) = tool.more t"
  by (simp add: wrapExecute_def split: option.splits)

lemma wrapExecute_None: "execute t = None \<Longrightarrow> wrapExecute t = t"
  by (simp add: wrapExecute_def)

lemma wrapExecute_Some_hook:
  "execute t = Some original \<Longrightarrow> toModelOutput (wrapExecute t) = None"
  by (simp add: wrapExecute_def)

lemma wrapExecute_Some_execute:
  "execute t = Some original \<Longrightarrow>
     \<exists>w. execute (wrapExecute t) = Some w \<and>
       (\<forall>args. w args =
          (case original args of
             Fulfilled result \<Rightarrow>
               (case flattenContent result of
                  Inl err \<Rightarrow> Rejected err
                | Inr text \<Rightarrow> Fulfilled text)
           | Rejected err \<Rightarrow> Rejected err
           | Pending \<Rightarrow> Pending))"
  by (simp add: wrapExecute_def)

lemma guard_iff:
  "(\<not> js_truthy raw \<or> js_typeof raw \<noteq> ''object'') \<longleftrightarrow> (\<not> isTree raw \<and> \<not> isArray raw)"
  by (cases raw) simp_all

lemma sanitizeTool_skip:
  "asSchema (inputSchema t) = Inr raw \<Longrightarrow> \<not> isTree raw \<Longrightarrow> \<not> isArray raw \<Longrightarrow>
     sanitizeTool asSchema jsonSchema t = Inr (wrapExecute t)"
  using guard_iff [of raw] by (simp add: sanitizeTool_def)

lemma sanitizeTool_tree:
  "asSchema (inputSchema t) = Inr (JObj tree) \<Longrightarrow>
     sanitizeTool asSchema jsonSchema t =
       Inr (wrapExecute (t\<lparr>inputSchema := jsonSchema (JObj (sanitizeSchema tree))\<rparr>))"
  by (simp add: sanitizeTool_def)

lemma sanitizeTool_cases:
  "sanitizeTool asSchema jsonSchema t = Inr t' \<Longrightarrow>
     t' = wrapExecute t \<or> (\<exists>d. t' = wrapExecute (t\<lparr>inputSchema := d\<rparr>))"
  by (auto simp: sanitizeTool_def split: sum.splits if_splits)

lemma sanitizeTool_execute_None:
  "sanitizeTool asSchema jsonSchema t = Inr t' \<Longrightarrow> execute t = None \<Longrightarrow>
     execute t' = None \<and> toModelOutput t' = toModelOutput t \<and>
     t' = t\<lparr>inputSchema := inputSchema t'\<rparr>"
  by (auto simp: sanitizeTool_def wrapExecute_def split: sum.splits if_splits)

lemma sanitizeTool_execute_Some:
  "sanitizeTool asSchema jsonSchema t = Inr t' \<Longrightarrow> execute t = Some original \<Longrightarrow>
     toModelOutput t' = None"
  by (auto simp: sanitizeTool_def wrapExecute_def split: sum.splits if_splits)

lemma sanitizeTool_more:
  "sanitizeTool asSchema jsonSchema t = Inr t' \<Longrightarrow> tool.more t' = tool.more t"
  by (auto simp: sanitizeTool_def wrapExecute_more split: sum.splits if_splits)

lemma sanitizeTools_loop_rel:
  "sanitizeTools_loop asSchema jsonSchema tools = Inr out \<Longrightarrow>
     list_all2 (\<lambda>nt nt'. fst nt' = fst nt \<and>
        sanitizeTool asSchema jsonSchema (snd nt) = Inr (snd nt')) tools out"
proof (induction tools arbitrary: out)
  case Nil
  then show ?case by simp
next
  case (Cons p tools)
  obtain name t where p: "p = (name, t)" by (cases p)
  from Cons.prems p obtain t' out' where
    t': "sanitizeTool asSchema jsonSchema t = Inr t'" and
    out': "sanitizeTools_loop asSchema jsonSchema tools = Inr out'" and
    out: "out = (name, t') # out'"
    by (auto split: sum.splits)
  from Cons.IH [OF out'] t' p out show ?case by simp
qed

lemma sanitizeTools_loop_nth:
  assumes "sanitizeTools_loop asSchema jsonSchema tools = Inr out" and "i < length tools"
  shows "length out = length tools"
    and "fst (out ! i) = fst (tools ! i)"
    and "sanitizeTool asSchema jsonSchema (snd (tools ! i)) = Inr (snd (out ! i))"
  using sanitizeTools_loop_rel [OF assms(1)] assms(2)
  by (auto simp: list_all2_conv_all_nth)

lemma sanitizeTools_loop_names:
  "sanitizeTools_loop asSchema jsonSchema tools = Inr out \<Longrightarrow> map fst out = map fst tools"
  using sanitizeTools_loop_rel [of asSchema jsonSchema tools out]
  by (auto simp: list_all2_conv_all_nth intro: nth_equalityI)

lemma assigned_id:
  "''__proto__'' \<notin> set (map fst entries) \<Longrightarrow> assigned entries = entries"
  by (induction entries) (auto simp: assigned_def)

lemma sanitizeTools_link:
  assumes "sanitizeTools_loop asSchema jsonSchema tools = Inr out"
    and "''__proto__'' \<notin> set (map fst tools)"
  shows "sanitizeTools asSchema jsonSchema tools = Inr out"
proof -
  from sanitizeTools_loop_names [OF assms(1)] assms(2)
  have "''__proto__'' \<notin> set (map fst out)" by simp
  then have "assigned out = out" by (rule assigned_id)
  with assms(1) show ?thesis by (simp add: sanitizeTools_def)
qed

lemma sanitizeTools_unlink:
  assumes "sanitizeTools asSchema jsonSchema tools = Inr out"
    and "''__proto__'' \<notin> set (map fst tools)"
  shows "sanitizeTools_loop asSchema jsonSchema tools = Inr out"
proof -
  from assms(1) obtain entries where
    e: "sanitizeTools_loop asSchema jsonSchema tools = Inr entries" and o: "out = assigned entries"
    by (auto simp: sanitizeTools_def split: sum.splits)
  from sanitizeTools_link [OF e assms(2)] assms(1) have "out = entries" by simp
  with e show ?thesis by simp
qed

text \<open>
  The theorems for the claims C3, C4, C6 and C7 are about every tool that the
  loop adapts: there \<open>out\<close> is the list of the tools that the loop assigns, under
  their names, and each theorem ends with the fact that this list is the
  collection that \<^verbatim>\<open>sanitizeTools\<close> returns when no tool is named \<^verbatim>\<open>__proto__\<close>.
\<close>

text \<open>
  Claim C3. For a tool with an execution function, the execution function of
  the adapted tool, on any arguments, awaits the original on the same arguments
  and returns \<^verbatim>\<open>flattenContent\<close> of the awaited result; when the original returns
  \<^verbatim>\<open>[{type:"text", text:"result"}]\<close> it returns the string \<^verbatim>\<open>result\<close>.
\<close>

theorem sanitizeTools_execute_flattens:
  assumes "sanitizeTools_loop asSchema jsonSchema tools = Inr out"
    and "i < length tools"
    and "execute (snd (tools ! i)) = Some original"
  shows "(\<exists>w. execute (snd (out ! i)) = Some w \<and>
           (\<forall>args. w args =
              (case original args of
                 Fulfilled result \<Rightarrow>
                   (case flattenContent result of
                      Inl err \<Rightarrow> Rejected err
                    | Inr text \<Rightarrow> Fulfilled text)
               | Rejected err \<Rightarrow> Rejected err
               | Pending \<Rightarrow> Pending)) \<and>
           (\<forall>args. original args =
                Fulfilled (JArr [JObj [(''type'', JStr ''text''), (''text'', JStr ''result'')]])
              \<longrightarrow> w args = Fulfilled (JStr ''result''))) \<and>
         (''__proto__'' \<notin> set (map fst tools) \<longrightarrow>
            sanitizeTools asSchema jsonSchema tools = Inr out)"
proof -
  let ?t = "snd (tools ! i)"
  from sanitizeTools_loop_nth(3) [OF assms(1,2)]
  have "sanitizeTool asSchema jsonSchema ?t = Inr (snd (out ! i))" .
  from sanitizeTool_cases [OF this] obtain t0 where
    t0: "snd (out ! i) = wrapExecute t0" and e0: "execute t0 = execute ?t"
    by auto
  from e0 assms(3) have "execute t0 = Some original" by simp
  from wrapExecute_Some_execute [OF this] obtain w where
    w: "execute (wrapExecute t0) = Some w" and
    wa: "\<And>args. w args =
              (case original args of
                 Fulfilled result \<Rightarrow>
                   (case flattenContent result of
                      Inl err \<Rightarrow> Rejected err
                    | Inr text \<Rightarrow> Fulfilled text)
               | Rejected err \<Rightarrow> Rejected err
               | Pending \<Rightarrow> Pending)"
    by auto
  have "w args = Fulfilled (JStr ''result'')"
    if "original args =
          Fulfilled (JArr [JObj [(''type'', JStr ''text''), (''text'', JStr ''result'')]])"
    for args
    using that by (simp add: wa flattenContent_def)
  with w wa t0 have "\<exists>w. execute (snd (out ! i)) = Some w \<and>
           (\<forall>args. w args =
              (case original args of
                 Fulfilled result \<Rightarrow>
                   (case flattenContent result of
                      Inl err \<Rightarrow> Rejected err
                    | Inr text \<Rightarrow> Fulfilled text)
               | Rejected err \<Rightarrow> Rejected err
               | Pending \<Rightarrow> Pending)) \<and>
           (\<forall>args. original args =
                Fulfilled (JArr [JObj [(''type'', JStr ''text''), (''text'', JStr ''result'')]])
              \<longrightarrow> w args = Fulfilled (JStr ''result''))"
    by auto
  then show ?thesis
    using sanitizeTools_link [OF assms(1)] by blast
qed

theorem sanitizeTools_execute_flattens_witness:
  "\<exists>out w.
     sanitizeTools Inr id
       [(''search'',
         \<lparr>inputSchema = JObj [(''type'', JStr ''object'')],
          execute = Some (\<lambda>args :: jsval. Fulfilled
             (JArr [JObj [(''type'', JStr ''text''), (''text'', JStr ''result'')]])),
          toModelOutput = (None :: unit option)\<rparr>)] = Inr out \<and>
     execute (snd (out ! 0)) = Some w \<and>
     w (JStr ''query'') = Fulfilled (JStr ''result'')"
proof -
  let ?original = "\<lambda>args :: jsval. Fulfilled
             (JArr [JObj [(''type'', JStr ''text''), (''text'', JStr ''result'')]])"
  let ?tools = "[(''search'',
         \<lparr>inputSchema = JObj [(''type'', JStr ''object'')],
          execute = Some ?original,
          toModelOutput = (None :: unit option)\<rparr>)]"
  obtain out where out: "sanitizeTools_loop Inr id ?tools = Inr out"
    by (simp add: sanitizeTool_def)
  have i: "0 < length ?tools" by simp
  have e: "execute (snd (?tools ! 0)) = Some ?original" by simp
  have n: "''__proto__'' \<notin> set (map fst ?tools)" by simp
  note t = sanitizeTools_execute_flattens [OF out i e]
  from t [THEN conjunct2, rule_format, OF n]
  have r: "sanitizeTools Inr id ?tools = Inr out" .
  from t [THEN conjunct1] obtain w where
    "execute (snd (out ! 0)) = Some w" and
    "\<forall>args. ?original args =
        Fulfilled (JArr [JObj [(''type'', JStr ''text''), (''text'', JStr ''result'')]])
      \<longrightarrow> w args = Fulfilled (JStr ''result'')"
    by blast
  with r show ?thesis by blast
qed

text \<open>
  Claim C4, as amended. For a tool whose canonical input schema is a tree, the
  input schema of the adapted tool is the descriptor built from the sanitized
  tree, in place of the original descriptor. The sanitized tree holds no key of
  the denylist at any depth when every sequence of the tree holds only trees and
  primitive values; it keeps every key other than \<^verbatim>\<open>__proto__\<close> that is not in
  the denylist, with its value sanitized, and adds none; where the tree has no
  key \<^verbatim>\<open>__proto__\<close> its keys are the keys of the tree that are not in the
  denylist, in the same order. The tree \<^verbatim>\<open>{"type":"string","minLength":3}\<close> is
  sanitized to \<^verbatim>\<open>{"type":"string"}\<close>.
\<close>

theorem sanitizeTools_installs_sanitized_schema:
  assumes "sanitizeTools_loop asSchema jsonSchema tools = Inr out"
    and "i < length tools"
    and "asSchema (inputSchema (snd (tools ! i))) = Inr (JObj tree)"
  shows "inputSchema (snd (out ! i)) = jsonSchema (JObj (sanitizeSchema tree)) \<and>
         (flat_seqs (JObj tree) \<longrightarrow>
            set (keys_deep (JObj (sanitizeSchema tree))) \<inter> set STRIP_KEYS = {}) \<and>
         (\<forall>k v. k \<notin> set STRIP_KEYS \<and> k \<noteq> ''__proto__'' \<and> map_of tree k = Some v \<longrightarrow>
            map_of (sanitizeSchema tree) k = Some (sanitizeValue v)) \<and>
         set (map fst (sanitizeSchema tree)) \<subseteq> set (map fst tree) - set STRIP_KEYS \<and>
         (''__proto__'' \<notin> set (map fst tree) \<longrightarrow>
            map fst (sanitizeSchema tree) =
              filter (\<lambda>k. k \<notin> set STRIP_KEYS) (map fst tree)) \<and>
         sanitizeSchema [(''type'', JStr ''string''), (''minLength'', JNum 3)] =
           [(''type'', JStr ''string'')] \<and>
         (''__proto__'' \<notin> set (map fst tools) \<longrightarrow>
            sanitizeTools asSchema jsonSchema tools = Inr out)"
proof (intro conjI impI allI)
  from sanitizeTools_loop_nth(3) [OF assms(1,2)]
    sanitizeTool_tree [of asSchema "snd (tools ! i)" tree jsonSchema, OF assms(3)]
  have "snd (out ! i) =
      wrapExecute ((snd (tools ! i))\<lparr>inputSchema := jsonSchema (JObj (sanitizeSchema tree))\<rparr>)"
    by simp
  then show "inputSchema (snd (out ! i)) = jsonSchema (JObj (sanitizeSchema tree))"
    by (simp add: wrapExecute_inputSchema)
next
  assume "flat_seqs (JObj tree)"
  then show "set (keys_deep (JObj (sanitizeSchema tree))) \<inter> set STRIP_KEYS = {}"
    by (rule sanitizeSchema_clean)
next
  fix k v
  assume "k \<notin> set STRIP_KEYS \<and> k \<noteq> ''__proto__'' \<and> map_of tree k = Some v"
  then show "map_of (sanitizeSchema tree) k = Some (sanitizeValue v)"
    by (simp add: sanitizeSchema_lookup)
next
  show "set (map fst (sanitizeSchema tree)) \<subseteq> set (map fst tree) - set STRIP_KEYS"
    by (rule sanitizeSchema_keys_subset)
next
  assume "''__proto__'' \<notin> set (map fst tree)"
  then show "map fst (sanitizeSchema tree) =
      filter (\<lambda>k. k \<notin> set STRIP_KEYS) (map fst tree)"
    by (rule sanitizeSchema_keys)
next
  show "sanitizeSchema [(''type'', JStr ''string''), (''minLength'', JNum 3)] =
           [(''type'', JStr ''string'')]"
    by (simp add: sanitizeSchema_Cons sanitizeValue_def STRIP_KEYS_def)
next
  assume "''__proto__'' \<notin> set (map fst tools)"
  with assms(1) show "sanitizeTools asSchema jsonSchema tools = Inr out"
    by (rule sanitizeTools_link)
qed

theorem sanitizeTools_installs_sanitized_schema_witness:
  "\<exists>out.
     sanitizeTools Inr id
       [(''lookup'',
         \<lparr>inputSchema = JObj
            [(''type'', JStr ''object''),
             (''properties'', JObj
                [(''q'', JObj [(''type'', JStr ''string''), (''minLength'', JNum 3)])])],
          execute = (None :: (jsval \<Rightarrow> outcome) option),
          toModelOutput = (None :: unit option)\<rparr>)] = Inr out \<and>
     inputSchema (snd (out ! 0)) = JObj
        [(''type'', JStr ''object''),
         (''properties'', JObj [(''q'', JObj [(''type'', JStr ''string'')])])] \<and>
     set (keys_deep (inputSchema (snd (out ! 0)))) \<inter> set STRIP_KEYS = {}"
proof -
  let ?tree = "[(''type'', JStr ''object''),
             (''properties'', JObj
                [(''q'', JObj [(''type'', JStr ''string''), (''minLength'', JNum 3)])])]"
  let ?tools = "[(''lookup'',
         \<lparr>inputSchema = JObj ?tree,
          execute = (None :: (jsval \<Rightarrow> outcome) option),
          toModelOutput = (None :: unit option)\<rparr>)]"
  obtain out where out: "sanitizeTools_loop Inr id ?tools = Inr out"
    by (simp add: sanitizeTool_def)
  have i: "0 < length ?tools" by simp
  have a: "Inr (inputSchema (snd (?tools ! 0))) = (Inr (JObj ?tree) :: error + jsval)" by simp
  have n: "''__proto__'' \<notin> set (map fst ?tools)" by simp
  have f: "flat_seqs (JObj ?tree)" by simp
  have s: "sanitizeSchema ?tree =
      [(''type'', JStr ''object''),
       (''properties'', JObj [(''q'', JObj [(''type'', JStr ''string'')])])]"
    by (simp add: sanitizeSchema_Cons sanitizeValue_def STRIP_KEYS_def)
  note t = sanitizeTools_installs_sanitized_schema [of Inr id ?tools out 0 ?tree, OF out i a]
  from t have i1: "inputSchema (snd (out ! 0)) = id (JObj (sanitizeSchema ?tree))"
    by (rule conjunct1)
  from t [THEN conjunct2, THEN conjunct1] f
  have c: "set (keys_deep (JObj (sanitizeSchema ?tree))) \<inter> set STRIP_KEYS = {}"
    by (rule mp)
  have "''__proto__'' \<notin> set (map fst ?tools) \<longrightarrow> sanitizeTools Inr id ?tools = Inr out"
    using t by (elim conjE)
  with n have r: "sanitizeTools Inr id ?tools = Inr out" by (rule rev_mp)
  from i1 s have i2: "inputSchema (snd (out ! 0)) = JObj
        [(''type'', JStr ''object''),
         (''properties'', JObj [(''q'', JObj [(''type'', JStr ''string'')])])]"
    by simp
  from c i1 have c2: "set (keys_deep (inputSchema (snd (out ! 0)))) \<inter> set STRIP_KEYS = {}"
    by simp
  from r i2 c2 show ?thesis by (intro exI conjI)
qed

text \<open>
  Claim C4 as stated fails: the tree \<^verbatim>\<open>{"enum": [[{"default": 1}]]}\<close> is the
  canonical schema of a tool, and the schema installed on the adapted tool
  still holds the key \<^verbatim>\<open>default\<close> of the denylist.
\<close>

theorem sanitizeTools_installs_schema_with_denylisted_key:
  "''default'' \<in> set STRIP_KEYS \<and>
   (\<exists>out.
      sanitizeTools Inr id
        [(''pick'',
          \<lparr>inputSchema = JObj [(''enum'', JArr [JArr [JObj [(''default'', JNum 1)]]])],
           execute = (None :: (jsval \<Rightarrow> outcome) option),
           toModelOutput = (None :: unit option)\<rparr>)] = Inr out \<and>
      ''default'' \<in> set (keys_deep (inputSchema (snd (out ! 0)))))"
  by (simp add: sanitizeTools_def assigned_def sanitizeTool_def wrapExecute_def
      sanitizeSchema_Cons sanitizeValue_def sanitizeItem_def STRIP_KEYS_def)

text \<open>
  Claim C6, as amended. For every input tool that has an execution function,
  the \<^verbatim>\<open>toModelOutput\<close> hook is absent on the output tool; an input tool without
  an execution function keeps its hook.
\<close>

theorem sanitizeTools_hook_removed_with_execute:
  assumes "sanitizeTools_loop asSchema jsonSchema tools = Inr out"
    and "i < length tools"
  shows "(execute (snd (tools ! i)) \<noteq> None \<longrightarrow> toModelOutput (snd (out ! i)) = None) \<and>
         (execute (snd (tools ! i)) = None \<longrightarrow>
            toModelOutput (snd (out ! i)) = toModelOutput (snd (tools ! i))) \<and>
         (''__proto__'' \<notin> set (map fst tools) \<longrightarrow>
            sanitizeTools asSchema jsonSchema tools = Inr out)"
  using sanitizeTools_loop_nth(3) [OF assms] sanitizeTools_link [OF assms(1)]
  by (auto dest: sanitizeTool_execute_None sanitizeTool_execute_Some)

theorem sanitizeTools_hook_removed_with_execute_witness:
  "\<exists>out.
     sanitizeTools Inr id
       [(''a'', \<lparr>inputSchema = JObj [],
                execute = Some (\<lambda>args :: jsval. Fulfilled (JStr ''ok'')),
                toModelOutput = Some ''render''\<rparr>),
        (''b'', \<lparr>inputSchema = JNull,
                execute = None,
                toModelOutput = Some ''render''\<rparr>)] = Inr out \<and>
     toModelOutput (snd (out ! 0)) = None \<and>
     toModelOutput (snd (out ! 1)) = Some ''render''"
proof -
  let ?tools = "[(''a'', \<lparr>inputSchema = JObj [],
                execute = Some (\<lambda>args :: jsval. Fulfilled (JStr ''ok'')),
                toModelOutput = Some ''render''\<rparr>),
        (''b'', \<lparr>inputSchema = JNull,
                execute = None,
                toModelOutput = Some ''render''\<rparr>)]"
  obtain out where out: "sanitizeTools_loop Inr id ?tools = Inr out"
    by (simp add: sanitizeTool_def)
  have i0: "0 < length ?tools" and i1: "1 < length ?tools" by simp_all
  have n: "''__proto__'' \<notin> set (map fst ?tools)" by simp
  from sanitizeTools_hook_removed_with_execute [OF out i0]
  have "toModelOutput (snd (out ! 0)) = None" by simp
  moreover from sanitizeTools_hook_removed_with_execute [OF out i1]
  have "toModelOutput (snd (out ! 1)) = Some ''render''" by simp
  moreover from sanitizeTools_hook_removed_with_execute [OF out i0] n
  have "sanitizeTools Inr id ?tools = Inr out" by blast
  ultimately show ?thesis by blast
qed

text \<open>
  Claim C6 as stated fails: a tool without an execution function leaves
  \<^verbatim>\<open>wrapExecute\<close> at its first return, with the hook it came with.
\<close>

theorem sanitizeTools_keeps_hook_without_execute:
  "\<exists>out.
     sanitizeTools Inr id
       [(''b'', \<lparr>inputSchema = JObj [(''type'', JStr ''object'')],
                execute = (None :: (jsval \<Rightarrow> outcome) option),
                toModelOutput = Some ''render''\<rparr>)] = Inr out \<and>
     toModelOutput (snd (out ! 0)) = Some ''render''"
  by (simp add: sanitizeTools_def assigned_def sanitizeTool_def wrapExecute_def
      sanitizeSchema_Cons sanitizeValue_def STRIP_KEYS_def)

text \<open>
  Claim C7, as amended. For every tool whose canonical input schema is absent or
  is neither a tree nor a sequence, the output tool keeps the original
  input-schema descriptor, and its execution function, if present, is wrapped
  with the content-flattening wrapper.
\<close>

theorem sanitizeTools_keeps_schema_of_non_object:
  assumes "sanitizeTools_loop asSchema jsonSchema tools = Inr out"
    and "i < length tools"
    and "asSchema (inputSchema (snd (tools ! i))) = Inr raw"
    and "\<not> isTree raw" and "\<not> isArray raw"
  shows "inputSchema (snd (out ! i)) = inputSchema (snd (tools ! i)) \<and>
         (execute (snd (tools ! i)) = None \<longrightarrow> execute (snd (out ! i)) = None) \<and>
         (\<forall>original. execute (snd (tools ! i)) = Some original \<longrightarrow>
            (\<exists>w. execute (snd (out ! i)) = Some w \<and>
               (\<forall>args. w args =
                  (case original args of
                     Fulfilled result \<Rightarrow>
                       (case flattenContent result of
                          Inl err \<Rightarrow> Rejected err
                        | Inr text \<Rightarrow> Fulfilled text)
                   | Rejected err \<Rightarrow> Rejected err
                   | Pending \<Rightarrow> Pending)))) \<and>
         (''__proto__'' \<notin> set (map fst tools) \<longrightarrow>
            sanitizeTools asSchema jsonSchema tools = Inr out)"
proof -
  from sanitizeTools_loop_nth(3) [OF assms(1,2)]
    sanitizeTool_skip [of asSchema "snd (tools ! i)" raw jsonSchema, OF assms(3,4,5)]
  have t': "snd (out ! i) = wrapExecute (snd (tools ! i))"
    by simp
  show ?thesis
    unfolding t'
    using sanitizeTools_link [OF assms(1)]
    by (auto simp: wrapExecute_inputSchema wrapExecute_None dest: wrapExecute_Some_execute)
qed

theorem sanitizeTools_keeps_schema_of_non_object_witness:
  "\<exists>out w.
     sanitizeTools (\<lambda>d :: string. Inr JUndefined) (\<lambda>v. ''rebuilt'')
       [(''ping'',
         \<lparr>inputSchema = ''opaque'',
          execute = Some (\<lambda>args :: jsval. Fulfilled (JArr
             [JObj [(''type'', JStr ''text''), (''text'', JStr ''pong'')]])),
          toModelOutput = (None :: unit option)\<rparr>)] = Inr out \<and>
     inputSchema (snd (out ! 0)) = ''opaque'' \<and>
     execute (snd (out ! 0)) = Some w \<and>
     w JNull = Fulfilled (JStr ''pong'')"
proof -
  let ?original = "\<lambda>args :: jsval. Fulfilled (JArr
             [JObj [(''type'', JStr ''text''), (''text'', JStr ''pong'')]])"
  let ?tools = "[(''ping'',
         \<lparr>inputSchema = ''opaque'',
          execute = Some ?original,
          toModelOutput = (None :: unit option)\<rparr>)]"
  let ?A = "\<lambda>d :: string. (Inr JUndefined :: error + jsval)"
  let ?J = "\<lambda>v :: jsval. ''rebuilt''"
  obtain out where out: "sanitizeTools_loop ?A ?J ?tools = Inr out"
    by (simp add: sanitizeTool_def)
  have i: "0 < length ?tools" by simp
  have a: "?A (inputSchema (snd (?tools ! 0))) = Inr JUndefined" by simp
  have n1: "\<not> isTree JUndefined" and n2: "\<not> isArray JUndefined" by simp_all
  have e: "execute (snd (?tools ! 0)) = Some ?original" by simp
  have n: "''__proto__'' \<notin> set (map fst ?tools)" by simp
  note t = sanitizeTools_keeps_schema_of_non_object [OF out i a n1 n2]
  from t n have r: "sanitizeTools ?A ?J ?tools = Inr out" by blast
  from t e
  obtain w where "inputSchema (snd (out ! 0)) = ''opaque''"
    and "execute (snd (out ! 0)) = Some w"
    and w: "\<forall>args. w args =
                  (case ?original args of
                     Fulfilled result \<Rightarrow>
                       (case flattenContent result of
                          Inl err \<Rightarrow> Rejected err
                        | Inr text \<Rightarrow> Fulfilled text)
                   | Rejected err \<Rightarrow> Rejected err
                   | Pending \<Rightarrow> Pending)"
    by auto
  moreover from w have "w JNull = Fulfilled (JStr ''pong'')"
    by (simp add: flattenContent_def)
  ultimately show ?thesis using r by blast
qed

text \<open>
  Claim C7 as stated fails: a canonical schema that is a sequence is not a tree,
  but it passes the test \<^verbatim>\<open>typeof raw !== "object"\<close> of line 146 and the
  descriptor is replaced, here \<^verbatim>\<open>["x"]\<close> by \<^verbatim>\<open>{"0": "x"}\<close>.
\<close>

theorem sanitizeTools_rewrites_array_schema:
  "\<not> isTree (JArr [JStr ''x'']) \<and>
   (\<exists>out.
      sanitizeTools Inr id
        [(''t'',
          \<lparr>inputSchema = JArr [JStr ''x''],
           execute = Some (\<lambda>args :: jsval. Fulfilled JNull),
           toModelOutput = (None :: unit option)\<rparr>)] = Inr out \<and>
      inputSchema (snd (out ! 0)) = JObj [(''0'', JStr ''x'')] \<and>
      inputSchema (snd (out ! 0)) \<noteq> JArr [JStr ''x''])"
  by (simp add: sanitizeTools_def assigned_def sanitizeTool_def wrapExecute_def
      sanitizeSchema_Cons sanitizeValue_def STRIP_KEYS_def show_nat.simps digit_char_def)

text \<open>
  Claim C9 fails on the code: the original execution function succeeds with
  \<^verbatim>\<open>{id: 10n}\<close> and the wrapper fails with the \<^verbatim>\<open>TypeError\<close> of
  \<^verbatim>\<open>JSON.stringify\<close>.
\<close>

theorem wrapExecute_rejects_after_fulfilled_original:
  "\<exists>w. execute (wrapExecute
           \<lparr>inputSchema = JNull,
            execute = Some (\<lambda>args :: jsval. Fulfilled (JObj [(''id'', JBigInt 10)])),
            toModelOutput = (None :: unit option)\<rparr>) = Some w \<and>
        w JNull = Rejected TypeError"
  by (simp add: wrapExecute_def flattenContent_def JSON_stringify_def)

text \<open>
  Claim C10, as amended. For every input collection in which no tool is named
  \<^verbatim>\<open>__proto__\<close>: the output collection has the names of the input collection, one
  output tool per input tool, in the same order. Every output tool agrees with
  its input tool on every field other than \<^verbatim>\<open>inputSchema\<close>, \<^verbatim>\<open>execute\<close> and
  \<^verbatim>\<open>toModelOutput\<close>; a tool without an execution function changes at most in
  \<^verbatim>\<open>inputSchema\<close>; and a tool without an execution function whose canonical
  schema is neither a tree nor a sequence is unchanged.
\<close>

theorem sanitizeTools_frame:
  assumes "sanitizeTools asSchema jsonSchema tools = Inr out"
    and "''__proto__'' \<notin> set (map fst tools)"
  shows "map fst out = map fst tools \<and> length out = length tools \<and>
         (\<forall>i < length tools.
            tool.more (snd (out ! i)) = tool.more (snd (tools ! i)) \<and>
            (execute (snd (tools ! i)) = None \<longrightarrow>
               snd (out ! i) = (snd (tools ! i))\<lparr>inputSchema := inputSchema (snd (out ! i))\<rparr>) \<and>
            (\<forall>raw. execute (snd (tools ! i)) = None \<and>
                   asSchema (inputSchema (snd (tools ! i))) = Inr raw \<and>
                   \<not> isTree raw \<and> \<not> isArray raw \<longrightarrow>
                   snd (out ! i) = snd (tools ! i)))"
proof (intro conjI allI impI)
  note loop = sanitizeTools_unlink [OF assms]
  show names: "map fst out = map fst tools"
    using loop by (rule sanitizeTools_loop_names)
  then show "length out = length tools"
    by (rule map_eq_imp_length_eq)
  {
    fix i assume i: "i < length tools"
    from sanitizeTools_loop_nth(3) [OF loop i]
    show "tool.more (snd (out ! i)) = tool.more (snd (tools ! i))"
      by (rule sanitizeTool_more)
  }
  {
    fix i assume i: "i < length tools" and e: "execute (snd (tools ! i)) = None"
    from sanitizeTool_execute_None [OF sanitizeTools_loop_nth(3) [OF loop i] e]
    show "snd (out ! i) = (snd (tools ! i))\<lparr>inputSchema := inputSchema (snd (out ! i))\<rparr>"
      by simp
  }
  {
    fix i raw
    assume i: "i < length tools"
      and h: "execute (snd (tools ! i)) = None \<and>
              asSchema (inputSchema (snd (tools ! i))) = Inr raw \<and>
              \<not> isTree raw \<and> \<not> isArray raw"
    from h have "sanitizeTool asSchema jsonSchema (snd (tools ! i)) =
        Inr (wrapExecute (snd (tools ! i)))"
      by (simp add: sanitizeTool_skip)
    with sanitizeTools_loop_nth(3) [OF loop i] h
    show "snd (out ! i) = snd (tools ! i)"
      by (simp add: wrapExecute_None)
  }
qed

theorem sanitizeTools_frame_witness:
  "\<exists>out.
     sanitizeTools
       (\<lambda>d :: string. Inr (if d = ''s1'' then JObj [(''format'', JStr ''uri'')] else JNull))
       (\<lambda>v. ''rebuilt'')
       [(''a'', \<lparr>inputSchema = ''s1'',
                execute = Some (\<lambda>args :: jsval. Fulfilled JNull),
                toModelOutput = Some ''hook'', \<dots> = ''first''\<rparr>),
        (''b'', \<lparr>inputSchema = ''s2'', execute = None,
                toModelOutput = Some ''hook'', \<dots> = ''second''\<rparr>)] = Inr out \<and>
     map fst out = [''a'', ''b''] \<and>
     tool.more (snd (out ! 0)) = ''first'' \<and>
     snd (out ! 1) =
       \<lparr>inputSchema = ''s2'', execute = None,
        toModelOutput = Some ''hook'', \<dots> = ''second''\<rparr>"
proof -
  let ?A = "\<lambda>d :: string.
      (Inr (if d = ''s1'' then JObj [(''format'', JStr ''uri'')] else JNull) :: error + jsval)"
  let ?J = "\<lambda>v :: jsval. ''rebuilt''"
  let ?tools = "[(''a'', \<lparr>inputSchema = ''s1'',
                execute = Some (\<lambda>args :: jsval. Fulfilled JNull),
                toModelOutput = Some ''hook'', \<dots> = ''first''\<rparr>),
        (''b'', \<lparr>inputSchema = ''s2'', execute = None,
                toModelOutput = Some ''hook'', \<dots> = ''second''\<rparr>)]"
  obtain out where out: "sanitizeTools ?A ?J ?tools = Inr out"
    by (simp add: sanitizeTools_def sanitizeTool_def)
  have n: "''__proto__'' \<notin> set (map fst ?tools)" by simp
  note f = sanitizeTools_frame [OF out n]
  from f have "map fst out = map fst ?tools" by (rule conjunct1)
  then have names: "map fst out = [''a'', ''b'']" by simp
  from f have all: "\<forall>i < length ?tools.
            tool.more (snd (out ! i)) = tool.more (snd (?tools ! i)) \<and>
            (execute (snd (?tools ! i)) = None \<longrightarrow>
               snd (out ! i) = (snd (?tools ! i))\<lparr>inputSchema := inputSchema (snd (out ! i))\<rparr>) \<and>
            (\<forall>raw. execute (snd (?tools ! i)) = None \<and>
                   ?A (inputSchema (snd (?tools ! i))) = Inr raw \<and>
                   \<not> isTree raw \<and> \<not> isArray raw \<longrightarrow>
                   snd (out ! i) = snd (?tools ! i))"
    by (elim conjE)
  have i0: "0 < length ?tools" by simp
  from all [rule_format, OF i0] have "tool.more (snd (out ! 0)) = tool.more (snd (?tools ! 0))"
    by (rule conjunct1)
  then have m: "tool.more (snd (out ! 0)) = ''first''" by simp
  have h: "execute (snd (?tools ! 1)) = None \<and>
      ?A (inputSchema (snd (?tools ! 1))) = Inr JNull \<and>
      \<not> isTree JNull \<and> \<not> isArray JNull"
    by simp
  have i1: "1 < length ?tools" by simp
  from all [rule_format, OF i1] have
    "\<forall>raw. execute (snd (?tools ! 1)) = None \<and>
                   ?A (inputSchema (snd (?tools ! 1))) = Inr raw \<and>
                   \<not> isTree raw \<and> \<not> isArray raw \<longrightarrow>
                   snd (out ! 1) = snd (?tools ! 1)"
    by (elim conjE)
  from this [rule_format, OF h] have "snd (out ! 1) = snd (?tools ! 1)" .
  then have u: "snd (out ! 1) =
       \<lparr>inputSchema = ''s2'', execute = None,
        toModelOutput = Some ''hook'', \<dots> = ''second''\<rparr>"
    by simp
  from out names m u show ?thesis by (intro exI conjI)
qed

text \<open>
  Claim C10 as stated fails: a tool without an execution function whose
  canonical schema is the empty sequence, which is not a tree, gets the
  descriptor of the empty tree.
\<close>

theorem sanitizeTools_changes_tool_with_array_schema:
  "execute \<lparr>inputSchema = JArr [], execute = (None :: (jsval \<Rightarrow> outcome) option),
            toModelOutput = (None :: unit option)\<rparr> = None \<and>
   \<not> isTree (JArr []) \<and>
   sanitizeTools Inr id
     [(''t'', \<lparr>inputSchema = JArr [], execute = (None :: (jsval \<Rightarrow> outcome) option),
               toModelOutput = (None :: unit option)\<rparr>)]
    = Inr [(''t'', \<lparr>inputSchema = JObj [], execute = None, toModelOutput = None\<rparr>)] \<and>
   \<lparr>inputSchema = JObj [], execute = (None :: (jsval \<Rightarrow> outcome) option),
     toModelOutput = (None :: unit option)\<rparr>
     \<noteq> \<lparr>inputSchema = JArr [], execute = None, toModelOutput = None\<rparr>"
  by (simp add: sanitizeTools_def assigned_def sanitizeTool_def wrapExecute_def)

end
